theory Spec2Isabelle
  imports Main
begin

section \<open>Arrays, integers and errors\<close>

text \<open>
  The source is \<^verbatim>\<open>src/img_edge_detector/edge_detect.py\<close>. Its rasters are
  two-dimensional NumPy arrays of the default integer dtype. An array is modelled as the
  list of its rows; \<open>is_2d h w a\<close> says that \<open>a\<close> has shape \<open>(h, w)\<close>. Every index the
  source computes lies inside the array it indexes when the array is rectangular (all loop
  bounds are derived from \<open>shape\<close>), so no IndexError branch exists in the stages below.

  The default integer dtype is taken to be 64 bits wide (NumPy on Linux and macOS, and
  NumPy 2 everywhere). Samples are modelled as \<open>int\<close>; where the source does arithmetic
  on array elements (\<open>*\<close>, \<open>np.sum\<close>, \<open>+\<close>, \<open>np.abs\<close>) the two's-complement
  wrap-around is written out with \<open>wrap64\<close>. Comparisons and copies need none.
\<close>

type_synonym ndarray = "int list list"

datatype error =
    PyException             \<comment> \<open>\<^verbatim>\<open>raise Exception(msg)\<close> of the loader\<close>
  | NotImplementedError     \<comment> \<open>\<^verbatim>\<open>raise NotImplementedError(msg)\<close>\<close>
  | TypeError               \<comment> \<open>calling a tuple\<close>
  | ValueError              \<comment> \<open>\<^verbatim>\<open>np.pad\<close> on an empty axis, \<^verbatim>\<open>chr\<close> out of range,
                                \<^verbatim>\<open>int\<close> of too many digits\<close>
  | OverflowError           \<comment> \<open>\<^verbatim>\<open>chr\<close> of a number that is no C int\<close>
  | UnicodeDecodeError      \<comment> \<open>\<^verbatim>\<open>bytes.decode()\<close>\<close>
  | UnicodeEncodeError      \<comment> \<open>writing a character the text encoding lacks\<close>
  | NonAsciiDigits          \<comment> \<open>outside the model, see \<open>str_isdigit\<close>\<close>

definition is_2d :: "nat \<Rightarrow> nat \<Rightarrow> ndarray \<Rightarrow> bool" where
  "is_2d h w a = (length a = h \<and> list_all (\<lambda>r. length r = w) a)"

definition wrap64 :: "int \<Rightarrow> int" where
  "wrap64 i = (i + 2 ^ 63) mod 2 ^ 64 - 2 ^ 63"

definition LAPLACIAN :: ndarray where
  "LAPLACIAN = [[-1, -1, -1],
                [-1,  8, -1],
                [-1, -1, -1]]"

definition THRESH_HI :: int where "THRESH_HI = 80"
definition THRESH_LO :: int where "THRESH_LO = 40"
definition MAX_VAL :: int where "MAX_VAL = 255"

text \<open>\<^verbatim>\<open>a.shape[0]\<close> and \<^verbatim>\<open>a.shape[1]\<close>. An array without rows is given width 0: the
  list of rows does not record the width of a \<open>(0, w)\<close> array, and no stage gets past
  \<open>np.pad\<close> with one.\<close>

definition shape0 :: "ndarray \<Rightarrow> nat" where
  "shape0 a = length a"

definition shape1 :: "ndarray \<Rightarrow> nat" where
  "shape1 a = (case a of [] \<Rightarrow> 0 | r # _ \<Rightarrow> length r)"

text \<open>\<^verbatim>\<open>np.zeros((h, w), dtype=int)\<close>.\<close>

definition np_zeros :: "nat \<Rightarrow> nat \<Rightarrow> ndarray" where
  "np_zeros h w = replicate h (replicate w 0)"

text \<open>The assignment \<^verbatim>\<open>arr[y][x] = v\<close>.\<close>

definition set2 :: "ndarray \<Rightarrow> nat \<Rightarrow> nat \<Rightarrow> int \<Rightarrow> ndarray" where
  "set2 arr y x v = arr[y := (arr ! y)[x := v]]"

text \<open>The slice \<^verbatim>\<open>arr[y0:y1, x0:x1]\<close> for bounds that are not negative; like NumPy's it
  stops at the end of the array.\<close>

definition slice2 :: "ndarray \<Rightarrow> nat \<Rightarrow> nat \<Rightarrow> nat \<Rightarrow> nat \<Rightarrow> ndarray" where
  "slice2 arr y0 y1 x0 x1 = map (\<lambda>r. take (x1 - x0) (drop x0 r)) (take (y1 - y0) (drop y0 arr))"

text \<open>\<^verbatim>\<open>np.pad(a, (1, 1), "edge")\<close>: one copy of the outermost row and column on each
  side. NumPy raises ValueError when an axis to extend is empty.\<close>

definition np_pad_edge :: "ndarray \<Rightarrow> error + ndarray" where
  "np_pad_edge a =
     (if shape0 a = 0 \<or> shape1 a = 0 then Inl ValueError
      else let rows = map (\<lambda>r. hd r # r @ [last r]) a
           in Inr (hd rows # rows @ [last rows]))"

text \<open>Elementwise product of two arrays of one shape, and \<^verbatim>\<open>np.sum\<close>.\<close>

definition np_mul :: "ndarray \<Rightarrow> ndarray \<Rightarrow> ndarray" where
  "np_mul a b = map2 (map2 (\<lambda>p q. wrap64 (p * q))) a b"

definition np_sum :: "ndarray \<Rightarrow> int" where
  "np_sum a = wrap64 (sum_list (concat a))"

definition np_add :: "ndarray \<Rightarrow> ndarray \<Rightarrow> ndarray" where
  "np_add a b = map2 (map2 (\<lambda>p q. wrap64 (p + q))) a b"

text \<open>\<^verbatim>\<open>np.any\<close>: some element is not zero.\<close>

definition np_any :: "ndarray \<Rightarrow> bool" where
  "np_any a = list_ex (\<lambda>v. v \<noteq> 0) (concat a)"

text \<open>\<^verbatim>\<open>np.abs\<close> on a 64-bit integer: the least value has no positive counterpart and is
  returned unchanged.\<close>

definition np_abs :: "int \<Rightarrow> int" where
  "np_abs v = wrap64 \<bar>v\<bar>"

text \<open>Python's \<^verbatim>\<open>max\<close> and \<^verbatim>\<open>min\<close> of a sequence that is not empty.\<close>

definition py_max :: "int list \<Rightarrow> int" where
  "py_max xs = fold max (tl xs) (hd xs)"

definition py_min :: "int list \<Rightarrow> int" where
  "py_min xs = fold min (tl xs) (hd xs)"

section \<open>Convolution\<close>

text \<open>The right-hand side of the loop body of \<^verbatim>\<open>apply_conv_kernel\<close>:
  \<^verbatim>\<open>np.sum(arr_padded[y:y+3, x:x+3] * conv_kernel_np)\<close>.\<close>

definition conv_at :: "ndarray \<Rightarrow> ndarray \<Rightarrow> nat \<Rightarrow> nat \<Rightarrow> int" where
  "conv_at arr_padded conv_kernel_np y x =
     np_sum (np_mul (slice2 arr_padded y (y + 3) x (x + 3)) conv_kernel_np)"

text \<open>
  \<^verbatim>\<open>apply_conv_kernel\<close>. The padding comes first. For a kernel that is not 3 by 3 the
  source builds its message with \<^verbatim>\<open>conv_kernel_np.shape()\<close>, a call of a tuple, which
  raises TypeError before the \<^verbatim>\<open>raise NotImplementedError(msg)\<close> is reached. The loops
  run over \<^verbatim>\<open>range(in_np_arr.shape[0] - 2)\<close> and \<^verbatim>\<open>range(in_np_arr.shape[1] - 2)\<close>;
  a negative bound gives an empty range, as truncating subtraction does here.
\<close>

definition apply_conv_kernel :: "ndarray \<Rightarrow> ndarray \<Rightarrow> error + ndarray" where
  "apply_conv_kernel in_np_arr conv_kernel_np =
     (case np_pad_edge in_np_arr of
        Inl e \<Rightarrow> Inl e
      | Inr arr_padded \<Rightarrow>
          if (shape0 conv_kernel_np, shape1 conv_kernel_np) \<noteq> (3, 3) then Inl TypeError
          else Inr (fold (\<lambda>y acc.
                      fold (\<lambda>x acc. set2 acc y x (conv_at arr_padded conv_kernel_np y x))
                        [0 ..< shape1 in_np_arr - 2] acc)
                      [0 ..< shape0 in_np_arr - 2]
                      (np_zeros (shape0 in_np_arr) (shape1 in_np_arr))))"

section \<open>Edge thinning\<close>

text \<open>The test of the loop body of \<^verbatim>\<open>apply_edge_thinning\<close>. The centre pixel and both
  runs are read from \<^verbatim>\<open>arr_padded\<close> at the loop's own \<open>y\<close> and \<open>x\<close>:
  \<^verbatim>\<open>arr_padded[y][x]\<close>, \<^verbatim>\<open>arr_padded[y, x-1:x+2]\<close> and \<^verbatim>\<open>arr_padded[y-1:y+2, x]\<close>.\<close>

definition thin_keep :: "ndarray \<Rightarrow> nat \<Rightarrow> nat \<Rightarrow> bool" where
  "thin_keep arr_padded y x =
     (let center_pxl = arr_padded ! y ! x;
          run_x = take 3 (drop (x - 1) (arr_padded ! y));
          run_y = map (\<lambda>r. r ! x) (take 3 (drop (y - 1) arr_padded));
          strongest_x_pos = (center_pxl \<ge> py_max run_x);
          strongest_x_neg = (center_pxl \<le> py_min run_x);
          strongest_y_pos = (center_pxl \<ge> py_max run_y);
          strongest_y_neg = (center_pxl \<le> py_min run_y)
      in strongest_x_pos \<or> strongest_x_neg \<or> strongest_y_pos \<or> strongest_y_neg)"

definition apply_edge_thinning :: "ndarray \<Rightarrow> error + ndarray" where
  "apply_edge_thinning in_np_arr =
     (case np_pad_edge in_np_arr of
        Inl e \<Rightarrow> Inl e
      | Inr arr_padded \<Rightarrow>
          Inr (fold (\<lambda>y acc.
                 fold (\<lambda>x acc.
                    if thin_keep arr_padded y x then set2 acc y x (in_np_arr ! y ! x) else acc)
                   [1 ..< shape1 in_np_arr - 1] acc)
                 [1 ..< shape0 in_np_arr - 1]
                 (np_zeros (shape0 in_np_arr) (shape1 in_np_arr))))"

section \<open>Edge tracking\<close>

text \<open>The first loop nest of \<^verbatim>\<open>apply_edge_tracking\<close> fills \<^verbatim>\<open>strong_pxls\<close>, the second
  \<^verbatim>\<open>weak_pxls\<close>; both read \<^verbatim>\<open>center_pxl = arr_padded[y][x]\<close> and copy
  \<^verbatim>\<open>in_np_arr[y][x]\<close>. In the second, \<^verbatim>\<open>continue\<close> is taken when
  \<^verbatim>\<open>strong_pxls[y][x] > 0\<close>, and the neighbourhood \<^verbatim>\<open>strong_pxls[y-1:y+2, x-1:x+2]\<close>
  is a slice of the unpadded strong grid.\<close>

definition strong_pass :: "ndarray \<Rightarrow> ndarray \<Rightarrow> ndarray" where
  "strong_pass in_np_arr arr_padded =
     fold (\<lambda>y acc.
        fold (\<lambda>x acc.
           let center_pxl = arr_padded ! y ! x
           in if center_pxl > THRESH_HI \<or> center_pxl < - THRESH_HI
              then set2 acc y x (in_np_arr ! y ! x) else acc)
          [1 ..< shape1 in_np_arr - 1] acc)
        [1 ..< shape0 in_np_arr - 1]
        (np_zeros (shape0 in_np_arr) (shape1 in_np_arr))"

definition weak_pass :: "ndarray \<Rightarrow> ndarray \<Rightarrow> ndarray \<Rightarrow> ndarray" where
  "weak_pass in_np_arr arr_padded strong_pxls =
     fold (\<lambda>y acc.
        fold (\<lambda>x acc.
           let center_pxl = arr_padded ! y ! x
           in if strong_pxls ! y ! x > 0 then acc
              else if center_pxl > THRESH_LO \<or> center_pxl < - THRESH_LO
              then (if np_any (slice2 strong_pxls (y - 1) (y + 2) (x - 1) (x + 2))
                    then set2 acc y x (in_np_arr ! y ! x) else acc)
              else acc)
          [1 ..< shape1 in_np_arr - 1] acc)
        [1 ..< shape0 in_np_arr - 1]
        (np_zeros (shape0 in_np_arr) (shape1 in_np_arr))"

definition apply_edge_tracking :: "ndarray \<Rightarrow> error + ndarray" where
  "apply_edge_tracking in_np_arr =
     (case np_pad_edge in_np_arr of
        Inl e \<Rightarrow> Inl e
      | Inr arr_padded \<Rightarrow>
          let strong_pxls = strong_pass in_np_arr arr_padded;
              weak_pxls = weak_pass in_np_arr arr_padded strong_pxls
          in Inr (np_add strong_pxls weak_pxls))"

section \<open>Rectifying and clipping\<close>

text \<open>\<^verbatim>\<open>rectify_and_clip\<close>: \<^verbatim>\<open>np.abs\<close> of the whole array, then
  \<^verbatim>\<open>np_arr[y][x] = min(np_arr[y][x], MAX_VAL)\<close> at every position.\<close>

definition rectify_and_clip :: "ndarray \<Rightarrow> ndarray" where
  "rectify_and_clip np_arr =
     (let np_arr = map (map np_abs) np_arr
      in fold (\<lambda>y acc.
           fold (\<lambda>x acc. set2 acc y x (min (acc ! y ! x) MAX_VAL)) [0 ..< shape1 np_arr] acc)
           [0 ..< shape0 np_arr] np_arr)"

section \<open>Reading and writing PGM files\<close>

text \<open>
  A file is the list of its bytes, each a number below 256; a Python \<^verbatim>\<open>str\<close> is the list
  of its code points. The loader is given the content of the file it opens, the writer
  returns the content of the file it writes; a path that cannot be opened is outside the
  model. Of the logging only the warnings are kept, in the order in which they are logged.
\<close>

type_synonym byte = nat
type_synonym ustr = "nat list"

datatype warning =
    RasterSizeMismatch nat nat nat   \<comment> \<open>expected width and height, actual size\<close>
  | MissingPixel nat nat             \<comment> \<open>row and column of a substituted 0\<close>

definition ascii :: "string \<Rightarrow> ustr" where
  "ascii s = map of_char s"

text \<open>Iterating over a file opened in binary mode yields its lines, each with its
  terminating \<^verbatim>\<open>\n\<close> (byte 10) if it has one.\<close>

fun split_lines :: "byte list \<Rightarrow> byte list list" where
  "split_lines [] = []"
| "split_lines (c # cs) =
     (if c = 0x0A then [c] # split_lines cs
      else (case split_lines cs of [] \<Rightarrow> [[c]] | l # ls \<Rightarrow> (c # l) # ls))"

text \<open>\<^verbatim>\<open>line.decode()\<close>: strict UTF-8. \<open>None\<close> stands for UnicodeDecodeError, raised for
  a stray or missing continuation byte, an overlong form, a surrogate, or a code point
  beyond U+10FFFF.\<close>

definition is_cont :: "byte \<Rightarrow> bool" where
  "is_cont b = (0x80 \<le> b \<and> b \<le> 0xBF)"

fun utf8_decode :: "byte list \<Rightarrow> ustr option" where
  "utf8_decode [] = Some []"
| "utf8_decode (b0 # bs) =
     (if b0 < 0x80 then map_option ((#) b0) (utf8_decode bs)
      else if 0xC2 \<le> b0 \<and> b0 \<le> 0xDF then
        (case bs of
           b1 # r \<Rightarrow>
             if is_cont b1
             then map_option ((#) ((b0 - 0xC0) * 64 + (b1 - 0x80))) (utf8_decode r)
             else None
         | _ \<Rightarrow> None)
      else if 0xE0 \<le> b0 \<and> b0 \<le> 0xEF then
        (case bs of
           b1 # b2 # r \<Rightarrow>
             if (if b0 = 0xE0 then 0xA0 else 0x80) \<le> b1
                \<and> b1 \<le> (if b0 = 0xED then 0x9F else 0xBF) \<and> is_cont b2
             then map_option ((#) ((b0 - 0xE0) * 4096 + (b1 - 0x80) * 64 + (b2 - 0x80)))
                    (utf8_decode r)
             else None
         | _ \<Rightarrow> None)
      else if 0xF0 \<le> b0 \<and> b0 \<le> 0xF4 then
        (case bs of
           b1 # b2 # b3 # r \<Rightarrow>
             if (if b0 = 0xF0 then 0x90 else 0x80) \<le> b1
                \<and> b1 \<le> (if b0 = 0xF4 then 0x8F else 0xBF) \<and> is_cont b2 \<and> is_cont b3
             then map_option ((#) ((b0 - 0xF0) * 262144 + (b1 - 0x80) * 4096
                                   + (b2 - 0x80) * 64 + (b3 - 0x80)))
                    (utf8_decode r)
             else None
         | _ \<Rightarrow> None)
      else None)"

text \<open>The characters that \<^verbatim>\<open>\s\<close> matches in a \<^verbatim>\<open>str\<close> pattern: Unicode white space.\<close>

definition py_isspace :: "nat \<Rightarrow> bool" where
  "py_isspace c =
     ((0x09 \<le> c \<and> c \<le> 0x0D) \<or> (0x1C \<le> c \<and> c \<le> 0x20) \<or> c = 0x85 \<or> c = 0xA0
      \<or> c = 0x1680 \<or> (0x2000 \<le> c \<and> c \<le> 0x200A) \<or> c = 0x2028 \<or> c = 0x2029
      \<or> c = 0x202F \<or> c = 0x205F \<or> c = 0x3000)"

text \<open>\<^verbatim>\<open>re.search(r"^\s*#", s)\<close>: the first character that is not white space is
  \<^verbatim>\<open>#\<close> (code point 35).\<close>

definition is_comment :: "ustr \<Rightarrow> bool" where
  "is_comment s = (case dropWhile py_isspace s of [] \<Rightarrow> False | c # _ \<Rightarrow> c = 0x23)"

text \<open>\<^verbatim>\<open>re.findall(r"\S+", s)\<close>: the maximal runs of characters that are not white
  space; \<open>cur\<close> is the run being read.\<close>

fun split_ws :: "ustr \<Rightarrow> ustr \<Rightarrow> ustr list" where
  "split_ws cur [] = (if cur = [] then [] else [cur])"
| "split_ws cur (c # cs) =
     (if py_isspace c then (if cur = [] then split_ws [] cs else cur # split_ws [] cs)
      else split_ws (cur @ [c]) cs)"

definition findall_nonspace :: "ustr \<Rightarrow> ustr list" where
  "findall_nonspace s = split_ws [] s"

text \<open>
  \<^verbatim>\<open>str.isdigit()\<close>. On a string of ASCII characters it holds when the string is not
  empty and all of its characters are among \<^verbatim>\<open>0\<close> to \<^verbatim>\<open>9\<close>. For other characters
  the answer depends on the Unicode character database, which is not modelled:
  \<open>str_isdigit\<close> answers \<open>None\<close> and the loader ends with \<open>NonAsciiDigits\<close>.
\<close>

definition str_isdigit :: "ustr \<Rightarrow> bool option" where
  "str_isdigit s =
     (if list_ex (\<lambda>c. 0x80 \<le> c) s then None
      else Some (s \<noteq> [] \<and> list_all (\<lambda>c. 0x30 \<le> c \<and> c \<le> 0x39) s))"

text \<open>
  \<^verbatim>\<open>int(s)\<close> for a string of ASCII digits: the decimal number, unless the string has more
  digits than \<^verbatim>\<open>sys.int_max_str_digits\<close>, 4300 unless it has been changed. Leading zeros
  count as digits. Beyond the limit \<^verbatim>\<open>int\<close> raises ValueError, which the loader does
  not catch.
\<close>

definition int_max_str_digits :: nat where
  "int_max_str_digits = 4300"

definition py_int :: "ustr \<Rightarrow> error + nat" where
  "py_int s =
     (if length s > int_max_str_digits then Inl ValueError
      else Inr (fold (\<lambda>c n. 10 * n + (c - 0x30)) s 0))"

text \<open>The decimal digits of a number that is not negative, as bytes, and \<^verbatim>\<open>str(n)\<close>,
  which is also what an f-string does with \<^verbatim>\<open>{n}\<close>: the same limit holds for the
  conversion of a number to a string, and a number of more digits raises ValueError.\<close>

fun str_nat :: "nat \<Rightarrow> byte list" where
  "str_nat n = (if n < 10 then [0x30 + n]
                else str_nat (n div 10) @ [0x30 + n mod 10])"

definition py_str :: "nat \<Rightarrow> error + byte list" where
  "py_str n =
     (if length (str_nat n) > int_max_str_digits then Inl ValueError else Inr (str_nat n))"

text \<open>
  The loop \<^verbatim>\<open>for line in in_fh\<close> of \<^verbatim>\<open>convert_pgm_to_np_arr\<close>: a comment line is
  skipped, any other line adds its strings while fewer than four are known, and the loop
  is left as soon as four or more are. The result is the list of strings and what is left
  of the file for \<^verbatim>\<open>in_fh.read()\<close>.
\<close>

fun read_header :: "byte list list \<Rightarrow> ustr list \<Rightarrow> error + (ustr list \<times> byte list)" where
  "read_header [] pgm_hdr_strings = Inr (pgm_hdr_strings, [])"
| "read_header (line # rest) pgm_hdr_strings =
     (case utf8_decode line of
        None \<Rightarrow> Inl UnicodeDecodeError
      | Some s \<Rightarrow>
          let strs = (if is_comment s then pgm_hdr_strings
                      else if length pgm_hdr_strings < 4
                      then pgm_hdr_strings @ findall_nonspace s
                      else pgm_hdr_strings)
          in if length strs \<ge> 4 then Inr (strs, concat rest) else read_header rest strs)"

text \<open>Lines 73 to 117 of the source: the header of the file, as width, height, maximum
  grey value and the bytes after the header. The checks and conversions are in the order
  of the source: \<^verbatim>\<open>wd.isdigit()\<close>, \<^verbatim>\<open>ht.isdigit()\<close>, \<^verbatim>\<open>int(wd)\<close>, \<^verbatim>\<open>int(ht)\<close>,
  \<^verbatim>\<open>max_val.isdigit()\<close>, \<^verbatim>\<open>int(max_val)\<close>.\<close>

definition pgm_header :: "byte list \<Rightarrow> error + (nat \<times> nat \<times> nat \<times> byte list)" where
  "pgm_header file =
     (case read_header (split_lines file) [] of
        Inl e \<Rightarrow> Inl e
      | Inr (pgm_hdr_strings, buf) \<Rightarrow>
          (case pgm_hdr_strings of
             [magic_num, wd, ht, max_val] \<Rightarrow>
               if magic_num \<noteq> ascii ''P5'' then Inl PyException
               else (case str_isdigit wd of
                 None \<Rightarrow> Inl NonAsciiDigits
               | Some False \<Rightarrow> Inl PyException
               | Some True \<Rightarrow>
                  (case str_isdigit ht of
                     None \<Rightarrow> Inl NonAsciiDigits
                   | Some False \<Rightarrow> Inl PyException
                   | Some True \<Rightarrow>
                      (case py_int wd of
                         Inl e \<Rightarrow> Inl e
                       | Inr wd \<Rightarrow>
                          (case py_int ht of
                             Inl e \<Rightarrow> Inl e
                           | Inr ht \<Rightarrow>
                              (case str_isdigit max_val of
                                 None \<Rightarrow> Inl NonAsciiDigits
                               | Some False \<Rightarrow> Inl PyException
                               | Some True \<Rightarrow>
                                  (case py_int max_val of
                                     Inl e \<Rightarrow> Inl e
                                   | Inr max_val \<Rightarrow> Inr (wd, ht, max_val, buf)))))))
           | _ \<Rightarrow> Inl PyException))"

text \<open>Lines 119 to 148: the raster. The state of the inner loop is \<^verbatim>\<open>pos\<close>, the row
  read so far and the warnings logged so far; the state of the outer loop has the rows read
  so far in place of the row. Before the loops the source formats \<^verbatim>\<open>wd * ht\<close> into
  its message about the size of the raster (an f-string, built whether or not the message
  is shown), which raises ValueError when the product has too many digits. Memory and
  time are not bounded in the model: a header that announces more pixels than a machine
  can hold is read as on a machine that can.\<close>

definition read_pixel ::
  "byte list \<Rightarrow> nat \<Rightarrow> nat \<Rightarrow> nat \<times> int list \<times> warning list \<Rightarrow> nat \<times> int list \<times> warning list" where
  "read_pixel buf y x st =
     (case st of (pos, row, ws) \<Rightarrow>
        if pos < length buf then (pos + 1, row @ [int (buf ! pos)], ws)
        else (pos + 1, row @ [0], ws @ [MissingPixel y x]))"

definition read_row ::
  "byte list \<Rightarrow> nat \<Rightarrow> nat \<Rightarrow> nat \<times> ndarray \<times> warning list \<Rightarrow> nat \<times> ndarray \<times> warning list" where
  "read_row buf wd y st =
     (case st of (pos, raster, ws) \<Rightarrow>
        (case fold (read_pixel buf y) [0 ..< wd] (pos, [], ws) of
           (pos', row, ws') \<Rightarrow> (pos', raster @ [row], ws')))"

definition read_raster ::
  "nat \<Rightarrow> nat \<Rightarrow> byte list \<Rightarrow> error + (ndarray \<times> warning list)" where
  "read_raster wd ht buf =
     (case py_str (wd * ht) of
        Inl e \<Rightarrow> Inl e
      | Inr size_str \<Rightarrow>
          let ws0 = (if length buf = wd * ht then []
                     else [RasterSizeMismatch wd ht (length buf)])
          in case fold (read_row buf wd) [0 ..< ht] (0, [], ws0) of
               (pos, raster, ws) \<Rightarrow> Inr (raster, ws))"

definition convert_pgm_to_np_arr :: "byte list \<Rightarrow> error + (ndarray \<times> warning list)" where
  "convert_pgm_to_np_arr file =
     (case pgm_header file of
        Inl e \<Rightarrow> Inl e
      | Inr (wd, ht, max_val, buf) \<Rightarrow> read_raster wd ht buf)"

text \<open>
  \<^verbatim>\<open>convert_np_arr_to_pgm\<close> opens its file with \<^verbatim>\<open>open(out_img_name, "w")\<close>, in text
  mode, and writes every pixel as the string \<^verbatim>\<open>chr(p)\<close>. What reaches the file is the
  encoding of that character in the encoding of the text layer, which Python takes from
  the locale (UTF-8 on current systems, and always in UTF-8 mode); it is a parameter of
  the model. Line ends are written as they are, as on POSIX systems. A failing write
  leaves the function with the exception. The warning about an existing file depends on
  the file system and is left out.
\<close>

datatype text_encoding = UTF_8 | Latin_1 | ASCII

text \<open>The width and the height that the writer puts into the header are lengths of
  lists in memory and far below the limit of \<^verbatim>\<open>str\<close>, so the header is written with
  \<open>str_nat\<close>.\<close>

definition py_chr :: "int \<Rightarrow> error + nat" where
  "py_chr p = (if p < - (2 ^ 31) \<or> 2 ^ 31 \<le> p then Inl OverflowError
               else if p < 0 \<or> 0x110000 \<le> p then Inl ValueError
               else Inr (nat p))"

definition encode_char :: "text_encoding \<Rightarrow> nat \<Rightarrow> error + byte list" where
  "encode_char enc c =
     (case enc of
        ASCII \<Rightarrow> if c < 0x80 then Inr [c] else Inl UnicodeEncodeError
      | Latin_1 \<Rightarrow> if c < 0x100 then Inr [c] else Inl UnicodeEncodeError
      | UTF_8 \<Rightarrow>
          if c < 0x80 then Inr [c]
          else if c < 0x800 then Inr [0xC0 + c div 64, 0x80 + c mod 64]
          else if 0xD800 \<le> c \<and> c \<le> 0xDFFF then Inl UnicodeEncodeError
          else if c < 0x10000
          then Inr [0xE0 + c div 4096, 0x80 + c div 64 mod 64, 0x80 + c mod 64]
          else Inr [0xF0 + c div 262144, 0x80 + c div 4096 mod 64,
                    0x80 + c div 64 mod 64, 0x80 + c mod 64])"

text \<open>One round of the loop \<^verbatim>\<open>for p in np.ndarray.flatten(np_arr): out_fh.write(chr(p))\<close>.\<close>

definition write_pixel :: "text_encoding \<Rightarrow> int \<Rightarrow> error + byte list \<Rightarrow> error + byte list" where
  "write_pixel enc p out =
     (case out of
        Inl e \<Rightarrow> Inl e
      | Inr bytes \<Rightarrow>
          (case py_chr p of
             Inl e \<Rightarrow> Inl e
           | Inr c \<Rightarrow> (case encode_char enc c of Inl e \<Rightarrow> Inl e | Inr bs \<Rightarrow> Inr (bytes @ bs))))"

definition convert_np_arr_to_pgm :: "text_encoding \<Rightarrow> ndarray \<Rightarrow> error + byte list" where
  "convert_np_arr_to_pgm enc np_arr =
     (let header = [0x50, 0x35, 0x0A] @ str_nat (shape1 np_arr) @ [0x0A]
                   @ str_nat (shape0 np_arr) @ [0x0A] @ str_nat (nat MAX_VAL) @ [0x0A]
      in (case fold (write_pixel enc) (concat np_arr) (Inr header) of
            Inl e \<Rightarrow> Inl e
          | Inr bytes \<Rightarrow> Inr (bytes @ [0x0A])))"

text \<open>Writing an array and reading the written file back.\<close>

definition write_then_read :: "text_encoding \<Rightarrow> ndarray \<Rightarrow> error + (ndarray \<times> warning list)" where
  "write_then_read enc np_arr =
     (case convert_np_arr_to_pgm enc np_arr of
        Inl e \<Rightarrow> Inl e
      | Inr file \<Rightarrow> convert_pgm_to_np_arr file)"

text \<open>The sample that the loader stores for position \<open>pos\<close> of the raster.\<close>

definition sample_at :: "byte list \<Rightarrow> nat \<Rightarrow> int" where
  "sample_at buf pos = (if pos < length buf then int (buf ! pos) else 0)"

section \<open>Auxiliary notions for the properties\<close>

text \<open>The range of a 64-bit signed integer, for one sample and for a whole array.\<close>

definition is_int64 :: "int \<Rightarrow> bool" where
  "is_int64 v = (- (2 ^ 63) \<le> v \<and> v < 2 ^ 63)"

definition int64_array :: "ndarray \<Rightarrow> bool" where
  "int64_array a = list_all (list_all is_int64) a"

text \<open>The condition under which the second loop nest of \<^verbatim>\<open>apply_edge_tracking\<close>
  writes position \<open>(y, x)\<close>: the three nested tests of its body, taken together.\<close>

definition weak_keep :: "ndarray \<Rightarrow> ndarray \<Rightarrow> nat \<Rightarrow> nat \<Rightarrow> bool" where
  "weak_keep arr_padded strong_pxls y x =
     (\<not> strong_pxls ! y ! x > 0
      \<and> (arr_padded ! y ! x > THRESH_LO \<or> arr_padded ! y ! x < - THRESH_LO)
      \<and> np_any (slice2 strong_pxls (y - 1) (y + 2) (x - 1) (x + 2)))"

text \<open>The thinning rule in the words of the specification, for an interior pixel of the
  unpadded input: the pixel is the maximum or the minimum of its own horizontal run of
  three or of its own vertical run of three, ties included.\<close>

definition spec_thin_keep :: "ndarray \<Rightarrow> nat \<Rightarrow> nat \<Rightarrow> bool" where
  "spec_thin_keep a y x =
     (let c = a ! y ! x;
          run_x = [a ! y ! (x - 1), c, a ! y ! (x + 1)];
          run_y = [a ! (y - 1) ! x, c, a ! (y + 1) ! x]
      in c \<ge> py_max run_x \<or> c \<le> py_min run_x \<or> c \<ge> py_max run_y \<or> c \<le> py_min run_y)"

section \<open>Properties\<close>

subsection \<open>Loops that write one position per step\<close>

text \<open>Every loop nest of the stages visits each position of its range once and assigns
  there at most once. Such a nest is determined position by position: where the body is
  \<open>set2 acc y x (g y x (acc ! y ! x))\<close>, the result at \<open>(i, j)\<close> is \<open>g i j\<close> of the
  initial value when \<open>(i, j)\<close> is in the range, and the initial value otherwise.\<close>

lemma fold_upd_length: "length (fold (\<lambda>x r. r[x := g x (r ! x)]) xs r) = length r"
  by (induction xs arbitrary: r) simp_all

lemma fold_upd_nth:
  "distinct xs \<Longrightarrow> j < length r \<Longrightarrow>
   fold (\<lambda>x r. r[x := g x (r ! x)]) xs r ! j = (if j \<in> set xs then g j (r ! j) else r ! j)"
proof (induction xs arbitrary: r)
  case Nil
  then show ?case by simp
next
  case (Cons x xs)
  have "fold (\<lambda>x r. r[x := g x (r ! x)]) (x # xs) r ! j
        = fold (\<lambda>x r. r[x := g x (r ! x)]) xs (r[x := g x (r ! x)]) ! j"
    by simp
  also have "\<dots> = (if j \<in> set xs then g j (r[x := g x (r ! x)] ! j) else r[x := g x (r ! x)] ! j)"
    using Cons.IH [of "r[x := g x (r ! x)]"] Cons.prems by simp
  also have "\<dots> = (if j \<in> set (x # xs) then g j (r ! j) else r ! j)"
  proof (cases "j = x")
    case True
    then show ?thesis using Cons.prems by simp
  next
    case False
    then have "r[x := g x (r ! x)] ! j = r ! j" by simp
    then show ?thesis using False by simp
  qed
  finally show ?case .
qed

lemma set2_same: "set2 acc y x (acc ! y ! x) = acc"
  by (simp add: set2_def)

lemma fold_row_upd:
  "fold (\<lambda>x acc. acc[y := (acc ! y)[x := g x (acc ! y ! x)]]) xs acc
   = acc[y := fold (\<lambda>x r. r[x := g x (r ! x)]) xs (acc ! y)]"
proof (induction xs arbitrary: acc)
  case Nil
  then show ?case by simp
next
  case (Cons x xs)
  show ?case
  proof (cases "y < length acc")
    case True
    then show ?thesis by (simp add: Cons.IH)
  next
    case False
    then show ?thesis by (simp add: Cons.IH list_update_beyond)
  qed
qed

lemma loop2_rows:
  assumes body: "\<And>y x acc. body y x acc = set2 acc y x (g y x (acc ! y ! x))"
  shows "fold (\<lambda>y acc. fold (\<lambda>x acc. body y x acc) xs acc) ys init
         = fold (\<lambda>y acc. acc[y := (\<lambda>y r. fold (\<lambda>x r. r[x := g y x (r ! x)]) xs r) y (acc ! y)]) ys init"
  by (simp only: body set2_def fold_row_upd)

lemma loop2_length:
  assumes body: "\<And>y x acc. body y x acc = set2 acc y x (g y x (acc ! y ! x))"
  shows "length (fold (\<lambda>y acc. fold (\<lambda>x acc. body y x acc) xs acc) ys init) = length init"
  unfolding loop2_rows [of body g, OF body] by (rule fold_upd_length)

lemma loop2_row:
  assumes body: "\<And>y x acc. body y x acc = set2 acc y x (g y x (acc ! y ! x))"
    and "distinct ys" "i < length init"
  shows "fold (\<lambda>y acc. fold (\<lambda>x acc. body y x acc) xs acc) ys init ! i
         = (if i \<in> set ys then fold (\<lambda>x r. r[x := g i x (r ! x)]) xs (init ! i) else init ! i)"
  unfolding loop2_rows [of body g, OF body]
  using fold_upd_nth [where g = "\<lambda>y r. fold (\<lambda>x r. r[x := g y x (r ! x)]) xs r", OF assms(2,3)]
  by simp

lemma loop2_row_length:
  assumes body: "\<And>y x acc. body y x acc = set2 acc y x (g y x (acc ! y ! x))"
    and "distinct ys" "i < length init"
  shows "length (fold (\<lambda>y acc. fold (\<lambda>x acc. body y x acc) xs acc) ys init ! i) = length (init ! i)"
  by (simp add: loop2_row [of body g, OF assms] fold_upd_length)

lemma loop2_nth:
  assumes body: "\<And>y x acc. body y x acc = set2 acc y x (g y x (acc ! y ! x))"
    and "distinct ys" "distinct xs" "i < length init" "j < length (init ! i)"
  shows "fold (\<lambda>y acc. fold (\<lambda>x acc. body y x acc) xs acc) ys init ! i ! j
         = (if i \<in> set ys \<and> j \<in> set xs then g i j (init ! i ! j) else init ! i ! j)"
  using assms(3,5)
  by (simp add: loop2_row [of body g, OF assms(1,2,4)] fold_upd_nth)

subsection \<open>Shapes\<close>

lemma is_2d_length: "is_2d h w a \<Longrightarrow> length a = h"
  by (simp add: is_2d_def)

lemma is_2d_row: "is_2d h w a \<Longrightarrow> i < h \<Longrightarrow> length (a ! i) = w"
  by (simp add: is_2d_def list_all_length)

lemma is_2dI: "length a = h \<Longrightarrow> (\<And>i. i < h \<Longrightarrow> length (a ! i) = w) \<Longrightarrow> is_2d h w a"
  by (simp add: is_2d_def list_all_length)

lemma is_2d_shape0: "is_2d h w a \<Longrightarrow> shape0 a = h"
  by (simp add: is_2d_def shape0_def)

lemma is_2d_shape1: "is_2d h w a \<Longrightarrow> 0 < h \<Longrightarrow> shape1 a = w"
  by (cases a) (auto simp: is_2d_def shape1_def)

lemma is_2d_zeros: "is_2d h w (np_zeros h w)"
  by (simp add: is_2d_def np_zeros_def list_all_length)

lemma np_zeros_nth: "i < h \<Longrightarrow> j < w \<Longrightarrow> np_zeros h w ! i ! j = 0"
  by (simp add: np_zeros_def)

lemma loop2_is_2d:
  assumes body: "\<And>y x acc. body y x acc = set2 acc y x (g y x (acc ! y ! x))"
    and "is_2d h w init"
  shows "is_2d h w (fold (\<lambda>y acc. fold (\<lambda>x acc. body y x acc) xs acc) [c ..< d] init)"
proof (rule is_2dI)
  show "length (fold (\<lambda>y acc. fold (\<lambda>x acc. body y x acc) xs acc) [c ..< d] init) = h"
    using loop2_length [of body g, OF body] assms(2) by (simp add: is_2d_length)
next
  fix i assume "i < h"
  then have "i < length init" using assms(2) by (simp add: is_2d_length)
  then have "length (fold (\<lambda>y acc. fold (\<lambda>x acc. body y x acc) xs acc) [c ..< d] init ! i)
             = length (init ! i)"
    using loop2_row_length [of body g "[c ..< d]" i init xs, OF body] by simp
  then show "length (fold (\<lambda>y acc. fold (\<lambda>x acc. body y x acc) xs acc) [c ..< d] init ! i) = w"
    using assms(2) \<open>i < h\<close> by (simp add: is_2d_row)
qed

lemma loop2_zeros_nth:
  assumes body: "\<And>y x acc. body y x acc = set2 acc y x (g y x (acc ! y ! x))"
    and "i < h" "j < w"
  shows "fold (\<lambda>y acc. fold (\<lambda>x acc. body y x acc) [a ..< b] acc) [c ..< d] (np_zeros h w) ! i ! j
         = (if c \<le> i \<and> i < d \<and> a \<le> j \<and> j < b then g i j 0 else 0)"
proof -
  have "i < length (np_zeros h w)" "j < length (np_zeros h w ! i)"
    using assms(2,3) by (simp_all add: np_zeros_def)
  then show ?thesis
    using loop2_nth [of body g "[c ..< d]" "[a ..< b]" i "np_zeros h w" j, OF body] assms(2,3)
    by (simp add: np_zeros_nth)
qed

subsection \<open>The two passes of edge tracking\<close>

lemma strong_pass_2d:
  assumes "is_2d h w a" "0 < h"
  shows "is_2d h w (strong_pass a p)"
  unfolding strong_pass_def is_2d_shape0 [OF assms(1)] is_2d_shape1 [OF assms]
  by (rule loop2_is_2d [where g = "\<lambda>y x old. if p ! y ! x > THRESH_HI \<or> p ! y ! x < - THRESH_HI
        then a ! y ! x else old"])
     (simp_all add: Let_def set2_same is_2d_zeros)

lemma strong_pass_nth:
  assumes "is_2d h w a" "0 < h" "i < h" "j < w"
  shows "strong_pass a p ! i ! j
         = (if 1 \<le> i \<and> i < h - 1 \<and> 1 \<le> j \<and> j < w - 1
               \<and> (p ! i ! j > THRESH_HI \<or> p ! i ! j < - THRESH_HI) then a ! i ! j else 0)"
  unfolding strong_pass_def is_2d_shape0 [OF assms(1)] is_2d_shape1 [OF assms(1,2)]
  by (subst loop2_zeros_nth [where g = "\<lambda>y x old. if p ! y ! x > THRESH_HI \<or> p ! y ! x < - THRESH_HI
        then a ! y ! x else old"])
     (simp_all add: Let_def set2_same assms(3,4))

lemma weak_pass_2d:
  assumes "is_2d h w a" "0 < h"
  shows "is_2d h w (weak_pass a p s)"
  unfolding weak_pass_def is_2d_shape0 [OF assms(1)] is_2d_shape1 [OF assms]
  by (rule loop2_is_2d [where g = "\<lambda>y x old. if weak_keep p s y x then a ! y ! x else old"])
     (simp_all add: Let_def set2_same is_2d_zeros weak_keep_def)

lemma weak_pass_nth:
  assumes "is_2d h w a" "0 < h" "i < h" "j < w"
  shows "weak_pass a p s ! i ! j
         = (if 1 \<le> i \<and> i < h - 1 \<and> 1 \<le> j \<and> j < w - 1 \<and> weak_keep p s i j then a ! i ! j else 0)"
  unfolding weak_pass_def is_2d_shape0 [OF assms(1)] is_2d_shape1 [OF assms(1,2)]
  by (subst loop2_zeros_nth [where g = "\<lambda>y x old. if weak_keep p s y x then a ! y ! x else old"])
     (simp_all add: Let_def set2_same assms(3,4) weak_keep_def)

lemma np_add_2d: "is_2d h w a \<Longrightarrow> is_2d h w b \<Longrightarrow> is_2d h w (np_add a b)"
  by (simp add: is_2d_def np_add_def list_all_length)

lemma np_add_nth:
  "is_2d h w a \<Longrightarrow> is_2d h w b \<Longrightarrow> i < h \<Longrightarrow> j < w \<Longrightarrow>
   np_add a b ! i ! j = wrap64 (a ! i ! j + b ! i ! j)"
  by (simp add: is_2d_def np_add_def list_all_length)

lemma wrap64_0: "wrap64 0 = 0"
  by (simp add: wrap64_def)

lemma np_pad_edge_ok: "is_2d h w a \<Longrightarrow> 0 < h \<Longrightarrow> 0 < w \<Longrightarrow> \<exists>p. np_pad_edge a = Inr p"
  by (simp add: np_pad_edge_def is_2d_shape0 is_2d_shape1 Let_def)

subsection \<open>Rectifying and clipping as a map\<close>

lemma wrap64_id: "is_int64 v \<Longrightarrow> wrap64 v = v"
  by (simp add: wrap64_def is_int64_def)

lemma rectify_and_clip_map:
  assumes "is_2d h w a"
  shows "rectify_and_clip a = map (map (\<lambda>v. min (np_abs v) MAX_VAL)) a"
proof (cases "h = 0")
  case True
  then show ?thesis using assms by (simp add: is_2d_def rectify_and_clip_def shape0_def)
next
  case False
  define b where "b = map (map np_abs) a"
  have b2: "is_2d h w b"
    using assms by (simp add: b_def is_2d_def list_all_length)
  have sh: "shape0 b = h" "shape1 b = w"
    using b2 False by (simp_all add: is_2d_shape0 is_2d_shape1)
  define r where "r = fold (\<lambda>y acc.
           fold (\<lambda>x acc. set2 acc y x (min (acc ! y ! x) MAX_VAL)) [0 ..< w] acc) [0 ..< h] b"
  have r: "rectify_and_clip a = r"
    by (simp add: rectify_and_clip_def Let_def b_def [symmetric] sh r_def)
  have r2: "is_2d h w r"
    unfolding r_def
    by (rule loop2_is_2d [where g = "\<lambda>y x old. min old MAX_VAL"]) (simp_all add: b2)
  have nth: "r ! i ! j = min (np_abs (a ! i ! j)) MAX_VAL" if "i < h" "j < w" for i j
  proof -
    have "i < length b" "j < length (b ! i)"
      using b2 that by (simp_all add: is_2d_length is_2d_row)
    then have "r ! i ! j = min (b ! i ! j) MAX_VAL"
      unfolding r_def
      using loop2_nth [where g = "\<lambda>y x old. min old MAX_VAL" and ys = "[0 ..< h]"
          and xs = "[0 ..< w]" and i = i and j = j and init = b
          and body = "\<lambda>y x acc. set2 acc y x (min (acc ! y ! x) MAX_VAL)"] that
      by simp
    moreover have "b ! i ! j = np_abs (a ! i ! j)"
      using assms that by (simp add: b_def is_2d_length is_2d_row)
    ultimately show ?thesis by simp
  qed
  have "r = map (map (\<lambda>v. min (np_abs v) MAX_VAL)) a"
  proof (rule nth_equalityI)
    show "length r = length (map (map (\<lambda>v. min (np_abs v) MAX_VAL)) a)"
      using r2 assms by (simp add: is_2d_length)
  next
    fix i assume "i < length r"
    then have i: "i < h" using r2 by (simp add: is_2d_length)
    show "r ! i = map (map (\<lambda>v. min (np_abs v) MAX_VAL)) a ! i"
    proof (rule nth_equalityI)
      show "length (r ! i) = length (map (map (\<lambda>v. min (np_abs v) MAX_VAL)) a ! i)"
        using r2 assms i by (simp add: is_2d_length is_2d_row)
    next
      fix j assume "j < length (r ! i)"
      then have "j < w" using r2 i by (simp add: is_2d_row)
      then show "r ! i ! j = map (map (\<lambda>v. min (np_abs v) MAX_VAL)) a ! i ! j"
        using nth [OF i] assms i by (simp add: is_2d_length is_2d_row)
    qed
  qed
  then show ?thesis using r by simp
qed

lemma np_abs_clip_idem:
  assumes "is_int64 v"
  shows "min (np_abs (min (np_abs v) MAX_VAL)) MAX_VAL = min (np_abs v) MAX_VAL"
proof (cases "v = - (2 ^ 63)")
  case True
  then show ?thesis by (simp add: np_abs_def wrap64_def MAX_VAL_def)
next
  case False
  then have "is_int64 \<bar>v\<bar>" using assms by (auto simp: is_int64_def)
  then have "np_abs v = \<bar>v\<bar>" by (simp add: np_abs_def wrap64_id)
  moreover have "np_abs (min \<bar>v\<bar> MAX_VAL) = min \<bar>v\<bar> MAX_VAL"
    by (simp add: np_abs_def wrap64_id is_int64_def MAX_VAL_def min_def)
  ultimately show ?thesis by simp
qed

subsection \<open>Convolution, position by position\<close>

lemma apply_conv_kernel_nth:
  assumes "is_2d h w a" "0 < h" "np_pad_edge a = Inr p" "(shape0 k, shape1 k) = (3, 3)"
  shows "\<exists>out. apply_conv_kernel a k = Inr out \<and> is_2d h w out \<and>
           (\<forall>i<h. \<forall>j<w. out ! i ! j = (if i < h - 2 \<and> j < w - 2 then conv_at p k i j else 0))"
proof -
  define out where "out = fold (\<lambda>y acc. fold (\<lambda>x acc. set2 acc y x (conv_at p k y x))
                        [0 ..< w - 2] acc) [0 ..< h - 2] (np_zeros h w)"
  have "apply_conv_kernel a k = Inr out"
    using assms by (simp add: apply_conv_kernel_def out_def is_2d_shape0 is_2d_shape1)
  moreover have "is_2d h w out"
    unfolding out_def
    by (rule loop2_is_2d [where g = "\<lambda>y x old. conv_at p k y x"]) (simp_all add: is_2d_zeros)
  moreover have "out ! i ! j = (if i < h - 2 \<and> j < w - 2 then conv_at p k i j else 0)"
    if "i < h" "j < w" for i j
    unfolding out_def
    by (subst loop2_zeros_nth [where g = "\<lambda>y x old. conv_at p k y x"]) (simp_all add: that)
  ultimately show ?thesis by blast
qed

lemma np_pad_edge_uniform:
  assumes "0 < h" "0 < w"
  shows "np_pad_edge (replicate h (replicate w v)) = Inr (replicate (h + 2) (replicate (w + 2) v))"
proof -
  have row: "hd (replicate w v) # replicate w v @ [last (replicate w v)] = replicate (w + 2) v"
    using assms(2) by (simp add: replicate_append_same)
  have "map (\<lambda>r. hd r # r @ [last r]) (replicate h (replicate w v))
        = replicate h (replicate (w + 2) v)"
    by (simp add: row)
  moreover have "hd (replicate h r) # replicate h r @ [last (replicate h r)] = replicate (h + 2) r" for r :: "int list"
    using assms(1) by (simp add: replicate_append_same)
  ultimately show ?thesis
    using assms by (cases h) (simp_all add: np_pad_edge_def shape0_def shape1_def Let_def)
qed

lemma conv_at_uniform:
  assumes "y + 3 \<le> h" "x + 3 \<le> w" "0 \<le> v" "v \<le> 255"
  shows "conv_at (replicate h (replicate w v)) LAPLACIAN y x = 0"
proof -
  have "take 3 (drop x (replicate w v)) = replicate 3 v"
    using assms(2) by (simp add: min_def)
  moreover have "take 3 (drop y (replicate h r)) = replicate 3 r" for r :: "int list"
    using assms(1) by (simp add: min_def)
  ultimately have win: "slice2 (replicate h (replicate w v)) y (y + 3) x (x + 3) = [[v, v, v], [v, v, v], [v, v, v]]"
    by (simp add: slice2_def numeral_3_eq_3)
  have m1: "wrap64 (- v) = - v" and m8: "wrap64 (v * 8) = v * 8"
    using assms(3,4) by (simp_all add: wrap64_id is_int64_def)
  show ?thesis
    by (simp add: conv_at_def win np_mul_def LAPLACIAN_def np_sum_def m1 m8 wrap64_0)
qed

subsection \<open>The raster loops of the loader\<close>

lemma read_pixels_upt:
  "fold (read_pixel buf y) [0 ..< n] (pos, row, ws)
   = (pos + n, row @ map (\<lambda>x. sample_at buf (pos + x)) [0 ..< n],
      ws @ map (MissingPixel y) (filter (\<lambda>x. \<not> pos + x < length buf) [0 ..< n]))"
  by (induction n) (simp_all add: read_pixel_def sample_at_def)

lemma read_rows_upt:
  "fold (read_row buf wd) [0 ..< n] (0, [], ws0)
   = (n * wd, map (\<lambda>y. map (\<lambda>x. sample_at buf (y * wd + x)) [0 ..< wd]) [0 ..< n],
      ws0 @ concat (map (\<lambda>y. map (MissingPixel y)
                               (filter (\<lambda>x. \<not> y * wd + x < length buf) [0 ..< wd])) [0 ..< n]))"
  by (induction n) (simp_all add: read_row_def read_pixels_upt)

lemma read_raster_eq:
  assumes "length (str_nat (wd * ht)) \<le> int_max_str_digits"
  shows "read_raster wd ht buf
   = Inr (map (\<lambda>y. map (\<lambda>x. sample_at buf (y * wd + x)) [0 ..< wd]) [0 ..< ht],
      (if length buf = wd * ht then [] else [RasterSizeMismatch wd ht (length buf)])
      @ concat (map (\<lambda>y. map (MissingPixel y)
                            (filter (\<lambda>x. \<not> y * wd + x < length buf) [0 ..< wd])) [0 ..< ht]))"
  using assms by (simp add: read_raster_def py_str_def read_rows_upt Let_def del: str_nat.simps)

lemma read_raster_too_large:
  "int_max_str_digits < length (str_nat (wd * ht)) \<Longrightarrow> read_raster wd ht buf = Inl ValueError"
  by (simp add: read_raster_def py_str_def del: str_nat.simps)

lemma py_int_too_long: "int_max_str_digits < length s \<Longrightarrow> py_int s = Inl ValueError"
  by (simp add: py_int_def)

text \<open>A width of more digits than \<^verbatim>\<open>int\<close> accepts ends the loader with ValueError, and
  \<open>str_nat n\<close> has at most 4300 digits exactly when \<open>n\<close> is below \<open>10 ^ 4300\<close>.\<close>

lemma pgm_header_width_too_long:
  assumes "read_header (split_lines file) [] = Inr ([ascii ''P5'', wd, ht, max_val], buf)"
    and "str_isdigit wd = Some True" "str_isdigit ht = Some True"
    and "int_max_str_digits < length wd"
  shows "pgm_header file = Inl ValueError"
  using assms by (simp add: pgm_header_def py_int_def)

lemma str_nat_nonempty: "0 < length (str_nat n)"
  by (subst str_nat.simps) simp

lemma str_nat_length_le: "(length (str_nat n) \<le> Suc k) = (n < 10 ^ Suc k)"
proof (induction k arbitrary: n)
  case 0
  show ?case
  proof (cases "n < 10")
    case True
    then show ?thesis by (subst str_nat.simps) simp
  next
    case False
    then show ?thesis
      using str_nat_nonempty [of "n div 10"] by (subst str_nat.simps) simp
  qed
next
  case (Suc k)
  show ?case
  proof (cases "n < 10")
    case True
    have "(10::nat) \<le> 10 ^ Suc (Suc k)" by simp
    with True have "n < 10 ^ Suc (Suc k)" by linarith
    with True show ?thesis by (subst str_nat.simps) simp
  next
    case False
    have "(n div 10 < 10 ^ Suc k) = (n < 10 ^ Suc (Suc k))"
      by (simp add: div_less_iff_less_mult mult.commute)
    with False Suc.IH [of "n div 10"] show ?thesis
      by (subst str_nat.simps) simp
  qed
qed

lemma str_nat_fits: "(length (str_nat n) \<le> int_max_str_digits) = (n < 10 ^ 4300)"
proof -
  have "int_max_str_digits = Suc 4299" by (simp add: int_max_str_digits_def)
  then show ?thesis using str_nat_length_le [of n 4299] by simp
qed

subsection \<open>Edge padding\<close>

text \<open>Position \<open>(y, x)\<close> of the input is position \<open>(y + 1, x + 1)\<close> of the padded
  array, so \<^verbatim>\<open>arr_padded[y][x]\<close> is the input pixel one row up and one column to the
  left of \<^verbatim>\<open>in_np_arr[y][x]\<close>. An array without rows or without columns is rejected by
  \<^verbatim>\<open>np.pad\<close>, and with it by every stage that pads.\<close>

lemma np_pad_edge_interior:
  assumes "is_2d h w a" "np_pad_edge a = Inr p" "y < h" "x < w"
  shows "p ! Suc y ! Suc x = a ! y ! x"
proof -
  have len: "length a = h" "length (a ! y) = w"
    using assms(1,3) by (simp_all add: is_2d_length is_2d_row)
  have "p = hd (map (\<lambda>r. hd r # r @ [last r]) a) # map (\<lambda>r. hd r # r @ [last r]) a
            @ [last (map (\<lambda>r. hd r # r @ [last r]) a)]"
    using assms(2) by (simp add: np_pad_edge_def Let_def split: if_splits)
  then have "p ! Suc y = hd (a ! y) # a ! y @ [last (a ! y)]"
    using assms(3) len by (simp add: nth_append)
  then show ?thesis
    using assms(4) len by (simp add: nth_append)
qed

lemma np_pad_edge_empty: "np_pad_edge [] = Inl ValueError" "np_pad_edge ([] # rows) = Inl ValueError"
  by (simp_all add: np_pad_edge_def shape0_def shape1_def)

lemma stages_reject_empty:
  "apply_conv_kernel [] k = Inl ValueError"
  "apply_edge_thinning [] = Inl ValueError"
  "apply_edge_tracking [] = Inl ValueError"
  by (simp_all add: apply_conv_kernel_def apply_edge_thinning_def apply_edge_tracking_def
        np_pad_edge_empty)

section \<open>The claims\<close>

text \<open>
  \<^bold>\<open>C1\<close> (convolution at every position). The claim: at every position \<open>(y, x)\<close> of the
  input the output of the convolution is the product sum of the kernel with the 3 by 3
  neighbourhood of \<open>(y, x)\<close> in the edge-padded input. The loops of
  \<^verbatim>\<open>apply_conv_kernel\<close> stop two rows and two columns early, so the last two rows and
  columns keep the zero of \<^verbatim>\<open>np.zeros\<close>. On the 3 by 3 input below the product sum at
  \<open>(2, 2)\<close> is 45 and the output there is 0.
\<close>

theorem apply_conv_kernel_skips_last_rows_and_columns:
  "apply_conv_kernel [[0, 0, 0], [0, 0, 0], [0, 0, 9]] LAPLACIAN
     = Inr [[0, 0, 0], [0, 0, 0], [0, 0, 0]]
   \<and> (case np_pad_edge [[0, 0, 0], [0, 0, 0], [0, 0, 9]] of
        Inl e \<Rightarrow> False
      | Inr arr_padded \<Rightarrow> conv_at arr_padded LAPLACIAN 2 2 = 45)"
  by code_simp

text \<open>
  \<^bold>\<open>C2\<close> (thinning keeps exactly the local extrema). The claim: an interior pixel keeps
  its value exactly when it is the maximum or the minimum of its own horizontal or
  vertical run of three. \<^verbatim>\<open>apply_edge_thinning\<close> tests \<^verbatim>\<open>arr_padded[y][x]\<close>, which is
  the input pixel one row up and one column to the left, and copies \<^verbatim>\<open>in_np_arr[y][x]\<close>.
  On the input below the centre pixel 1 is no extremum of either of its runs, and is kept.
\<close>

theorem apply_edge_thinning_tests_the_wrong_pixel:
  "apply_edge_thinning [[5, 0, 5], [0, 1, 2], [5, 2, 5]] = Inr [[0, 0, 0], [0, 1, 0], [0, 0, 0]]
   \<and> \<not> spec_thin_keep [[5, 0, 5], [0, 1, 2], [5, 2, 5]] 1 1"
  by code_simp

text \<open>
  \<^bold>\<open>C3\<close> (nothing at or below the low threshold survives tracking). The claim: the
  output of the hysteresis stage has no pixel with \<open>0 < |v| \<le> 40\<close>.
  \<^verbatim>\<open>apply_edge_tracking\<close> compares \<^verbatim>\<open>arr_padded[y][x]\<close> with the thresholds, the input
  pixel one row up and one column to the left, and copies \<^verbatim>\<open>in_np_arr[y][x]\<close>. On the
  input below the pixel 5 is kept because its upper left neighbour is 100.
\<close>

theorem apply_edge_tracking_keeps_a_pixel_below_the_low_threshold:
  "apply_edge_tracking [[100, 0, 0], [0, 5, 0], [0, 0, 0]] = Inr [[0, 0, 0], [0, 5, 0], [0, 0, 0]]"
  by code_simp

text \<open>
  \<^bold>\<open>C4\<close> (the strong and the weak grid are disjoint). The claim: at no position are
  both grids nonzero, so every output pixel is the input pixel or zero. The second loop
  nest skips a position only when \<^verbatim>\<open>strong_pxls[y][x] > 0\<close>; a negative strong pixel is
  not skipped, passes the low threshold, finds itself in its own neighbourhood of the
  strong grid, and is written to the weak grid as well. The sum doubles it.
\<close>

theorem apply_edge_tracking_doubles_a_negative_strong_pixel:
  "apply_edge_tracking [[-100, 0, 0], [0, -100, 0], [0, 0, 0]]
     = Inr [[0, 0, 0], [0, -200, 0], [0, 0, 0]]
   \<and> (case np_pad_edge [[-100, 0, 0], [0, -100, 0], [0, 0, 0]] of
        Inl e \<Rightarrow> False
      | Inr arr_padded \<Rightarrow>
          strong_pass [[-100, 0, 0], [0, -100, 0], [0, 0, 0]] arr_padded
            = [[0, 0, 0], [0, -100, 0], [0, 0, 0]]
          \<and> weak_pass [[-100, 0, 0], [0, -100, 0], [0, 0, 0]] arr_padded
               (strong_pass [[-100, 0, 0], [0, -100, 0], [0, 0, 0]] arr_padded)
            = [[0, 0, 0], [0, -100, 0], [0, 0, 0]])"
  by code_simp

text \<open>
  \<^bold>\<open>C5\<close> (writing and reading back gives the same grid). The writer opens its file in
  text mode and writes each sample as a character, so a sample of 128 or more reaches the
  file as the two bytes of its UTF-8 encoding. For the 1 by 1 raster with the sample 200
  the file ends with the bytes 195, 136 and the final line end, and the loader reads the
  sample 195 back (with a warning that the raster has 3 bytes where 1 was expected).
\<close>

theorem write_then_read_changes_sample_200:
  "convert_np_arr_to_pgm UTF_8 [[200]]
     = Inr [0x50, 0x35, 0x0A, 0x31, 0x0A, 0x31, 0x0A, 0x32, 0x35, 0x35, 0x0A, 0xC3, 0x88, 0x0A]
   \<and> write_then_read UTF_8 [[200]] = Inr ([[195]], [RasterSizeMismatch 1 1 3])"
  by (simp add: write_then_read_def convert_np_arr_to_pgm_def write_pixel_def py_chr_def
        encode_char_def shape0_def shape1_def MAX_VAL_def convert_pgm_to_np_arr_def
        pgm_header_def is_comment_def findall_nonspace_def py_isspace_def ascii_def
        str_isdigit_def py_int_def int_max_str_digits_def is_cont_def read_raster_def py_str_def
        read_row_def read_pixel_def)

text \<open>
  \<^bold>\<open>C6\<close> (a kernel that is not 3 by 3 is rejected with a configuration error). The
  source means to raise NotImplementedError, and builds the message first, with
  \<^verbatim>\<open>conv_kernel_np.shape()\<close>: the call of a tuple raises TypeError, after the padding
  has been computed.
\<close>

theorem apply_conv_kernel_rejects_with_TypeError:
  "apply_conv_kernel [[1]] [[1, 1], [1, 1]] = Inl TypeError"
  by code_simp

text \<open>
  \<^bold>\<open>C7\<close> (normalization is idempotent). For every two-dimensional array of 64-bit
  integers, \<^verbatim>\<open>rectify_and_clip\<close> replaces every sample \<open>v\<close> by the minimum of
  \<^verbatim>\<open>np.abs(v)\<close> and 255, and applying it to its own result changes nothing.
\<close>
theorem rectify_and_clip_idempotent:
  assumes "is_2d h w a" "int64_array a"
  shows "rectify_and_clip a = map (map (\<lambda>v. min (np_abs v) 255)) a
         \<and> rectify_and_clip (rectify_and_clip a) = rectify_and_clip a"
proof -
  have m: "rectify_and_clip a = map (map (\<lambda>v. min (np_abs v) MAX_VAL)) a"
    by (rule rectify_and_clip_map [OF assms(1)])
  have "is_2d h w (map (map (\<lambda>v. min (np_abs v) MAX_VAL)) a)"
    using assms(1) by (simp add: is_2d_def list_all_length)
  then have "rectify_and_clip (map (map (\<lambda>v. min (np_abs v) MAX_VAL)) a)
             = map (map (\<lambda>v. min (np_abs v) MAX_VAL)) (map (map (\<lambda>v. min (np_abs v) MAX_VAL)) a)"
    by (rule rectify_and_clip_map)
  also have "\<dots> = map (map (\<lambda>v. min (np_abs v) MAX_VAL)) a"
    using assms(2) by (auto simp: int64_array_def list_all_iff np_abs_clip_idem)
  finally show ?thesis using m by (simp add: MAX_VAL_def)
qed

theorem rectify_and_clip_idempotent_witness:
  "is_2d 2 2 [[-300, 7], [- 9223372036854775808, -3]]
   \<and> int64_array [[-300, 7], [- 9223372036854775808, -3]]
   \<and> rectify_and_clip [[-300, 7], [- 9223372036854775808, -3]]
       = map (map (\<lambda>v. min (np_abs v) 255)) [[-300, 7], [- 9223372036854775808, -3]]
   \<and> rectify_and_clip (rectify_and_clip [[-300, 7], [- 9223372036854775808, -3]])
       = rectify_and_clip [[-300, 7], [- 9223372036854775808, -3]]"
proof -
  have h1: "is_2d 2 2 [[-300, 7], [- 9223372036854775808, -3]]"
    by (simp add: is_2d_def)
  have h2: "int64_array [[-300, 7], [- 9223372036854775808, -3]]"
    by (simp add: int64_array_def is_int64_def)
  show ?thesis
    using h1 h2 rectify_and_clip_idempotent [OF h1 h2] by (intro conjI) (elim conjE, assumption)+
qed

text \<open>
  \<^bold>\<open>C8\<close> (a uniform raster convolves to zero). For every raster with at least one row
  and one column whose samples all equal one value \<open>v\<close> between 0 and 255, the
  convolution with the Laplacian kernel returns the raster of the same shape that is zero
  at every position, the border rows and columns included.
\<close>
theorem conv_uniform_zero:
  assumes "0 < h" "0 < w" "0 \<le> v" "v \<le> 255"
  shows "apply_conv_kernel (replicate h (replicate w v)) LAPLACIAN = Inr (replicate h (replicate w 0))"
proof -
  let ?a = "replicate h (replicate w v)"
  let ?p = "replicate (h + 2) (replicate (w + 2) v)"
  have a2: "is_2d h w ?a" by (simp add: is_2d_def list_all_length)
  have k: "(shape0 LAPLACIAN, shape1 LAPLACIAN) = (3, 3)"
    by (simp add: LAPLACIAN_def shape0_def shape1_def)
  obtain out where out: "apply_conv_kernel ?a LAPLACIAN = Inr out" "is_2d h w out"
    and nth: "\<And>i j. i < h \<Longrightarrow> j < w \<Longrightarrow>
           out ! i ! j = (if i < h - 2 \<and> j < w - 2 then conv_at ?p LAPLACIAN i j else 0)"
    using apply_conv_kernel_nth [OF a2 assms(1) np_pad_edge_uniform [OF assms(1,2)] k] by blast
  have z: "out ! i ! j = 0" if "i < h" "j < w" for i j
  proof (cases "i < h - 2 \<and> j < w - 2")
    case True
    then have "conv_at ?p LAPLACIAN i j = 0"
      using assms(3,4) by (intro conv_at_uniform) auto
    then show ?thesis by (simp only: nth [OF that] if_cancel)
  next
    case False
    then show ?thesis by (simp only: nth [OF that] if_False)
  qed
  have "out = replicate h (replicate w 0)"
  proof (rule nth_equalityI)
    show "length out = length (replicate h (replicate w (0::int)))"
      using out(2) by (simp add: is_2d_length)
  next
    fix i assume "i < length out"
    then have i: "i < h" using out(2) by (simp add: is_2d_length)
    show "out ! i = replicate h (replicate w 0) ! i"
    proof (rule nth_equalityI)
      show "length (out ! i) = length (replicate h (replicate w (0::int)) ! i)"
        using out(2) i by (simp add: is_2d_row)
    next
      fix j assume "j < length (out ! i)"
      then have "j < w" using out(2) i by (simp add: is_2d_row)
      then show "out ! i ! j = replicate h (replicate w 0) ! i ! j"
        using z [OF i] i by simp
    qed
  qed
  then show ?thesis using out(1) by simp
qed

theorem conv_uniform_zero_witness:
  "apply_conv_kernel (replicate 4 (replicate 5 100)) LAPLACIAN = Inr (replicate 4 (replicate 5 0))"
  by (rule conv_uniform_zero) simp_all

text \<open>
  \<^bold>\<open>C9\<close> (a short raster is filled with zeros). For every file whose header is read as
  width \<open>w\<close> and height \<open>h\<close> and which has fewer than \<open>w * h\<close> bytes after the header,
  the loader returns, without an error, a grid of \<open>h\<close> rows and \<open>w\<close> columns that holds
  the bytes in row-major order and 0 at every position past the last byte; it logs the
  warning about the size of the raster and one warning for every substituted pixel. The
  number \<open>w * h\<close> is one that Python converts to a string, of at most 4300 digits: the
  loader formats it into its message before it reads the raster.
\<close>

theorem loader_zero_fills_short_raster:
  assumes "pgm_header file = Inr (w, h, max_val, buf)" "length buf < w * h"
    and "length (str_nat (w * h)) \<le> int_max_str_digits"
  shows "\<exists>grid ws. convert_pgm_to_np_arr file = Inr (grid, ws) \<and> is_2d h w grid
           \<and> (\<forall>y<h. \<forall>x<w. grid ! y ! x = (if y * w + x < length buf then int (buf ! (y * w + x)) else 0))
           \<and> RasterSizeMismatch w h (length buf) \<in> set ws
           \<and> (\<forall>y<h. \<forall>x<w. \<not> y * w + x < length buf \<longrightarrow> MissingPixel y x \<in> set ws)"
proof -
  let ?grid = "map (\<lambda>y. map (\<lambda>x. sample_at buf (y * w + x)) [0 ..< w]) [0 ..< h]"
  let ?ws = "[RasterSizeMismatch w h (length buf)]
      @ concat (map (\<lambda>y. map (MissingPixel y)
                            (filter (\<lambda>x. \<not> y * w + x < length buf) [0 ..< w])) [0 ..< h])"
  have "convert_pgm_to_np_arr file = Inr (?grid, ?ws)"
    using assms(1,2) by (simp add: convert_pgm_to_np_arr_def read_raster_eq [OF assms(3)])
  moreover have "is_2d h w ?grid"
    by (simp add: is_2d_def list_all_length)
  moreover have "\<forall>y<h. \<forall>x<w. ?grid ! y ! x
                   = (if y * w + x < length buf then int (buf ! (y * w + x)) else 0)"
    by (simp add: sample_at_def)
  moreover have "RasterSizeMismatch w h (length buf) \<in> set ?ws"
    by simp
  moreover have "\<forall>y<h. \<forall>x<w. \<not> y * w + x < length buf \<longrightarrow> MissingPixel y x \<in> set ?ws"
    by auto
  ultimately show ?thesis by blast
qed

theorem loader_zero_fills_short_raster_witness:
  "pgm_header ([0x50, 0x35, 0x0A, 0x34, 0x20, 0x33, 0x0A, 0x32, 0x35, 0x35, 0x0A]
               @ [1, 2, 3, 4, 5, 6, 7, 8, 9, 200])
     = Inr (4, 3, 255, [1, 2, 3, 4, 5, 6, 7, 8, 9, 200])
   \<and> length [1, 2, 3, 4, 5, 6, 7, 8, 9, 200 :: nat] < 4 * 3
   \<and> length (str_nat (4 * 3)) \<le> int_max_str_digits
   \<and> (\<exists>grid ws.
         convert_pgm_to_np_arr ([0x50, 0x35, 0x0A, 0x34, 0x20, 0x33, 0x0A, 0x32, 0x35, 0x35, 0x0A]
                                @ [1, 2, 3, 4, 5, 6, 7, 8, 9, 200]) = Inr (grid, ws)
         \<and> is_2d 3 4 grid
         \<and> (\<forall>y<3. \<forall>x<4. grid ! y ! x
               = (if y * 4 + x < length [1, 2, 3, 4, 5, 6, 7, 8, 9, 200 :: nat]
                  then int ([1, 2, 3, 4, 5, 6, 7, 8, 9, 200] ! (y * 4 + x)) else 0))
         \<and> RasterSizeMismatch 4 3 (length [1, 2, 3, 4, 5, 6, 7, 8, 9, 200 :: nat]) \<in> set ws
         \<and> (\<forall>y<3. \<forall>x<4. \<not> y * 4 + x < length [1, 2, 3, 4, 5, 6, 7, 8, 9, 200 :: nat]
               \<longrightarrow> MissingPixel y x \<in> set ws))"
proof -
  have h1: "pgm_header ([0x50, 0x35, 0x0A, 0x34, 0x20, 0x33, 0x0A, 0x32, 0x35, 0x35, 0x0A]
                        @ [1, 2, 3, 4, 5, 6, 7, 8, 9, 200])
            = Inr (4, 3, 255, [1, 2, 3, 4, 5, 6, 7, 8, 9, 200])"
    by (simp add: pgm_header_def is_comment_def findall_nonspace_def py_isspace_def ascii_def
          str_isdigit_def py_int_def int_max_str_digits_def is_cont_def)
  have h2: "length [1, 2, 3, 4, 5, 6, 7, 8, 9, 200 :: nat] < 4 * 3"
    by simp
  have h3: "length (str_nat (4 * 3)) \<le> int_max_str_digits"
    by (simp add: int_max_str_digits_def)
  show ?thesis
    by (rule conjI [OF h1 conjI [OF h2 conjI [OF h3
          loader_zero_fills_short_raster [OF h1 h2 h3]]]])
qed

text \<open>
  \<^bold>\<open>C10\<close> (the border of the tracking output is zero). For every input of shape
  \<open>(h, w)\<close> with at least one row and one column, \<^verbatim>\<open>apply_edge_tracking\<close> returns an
  array of the same shape, and every pixel of its first row, last row, first column and
  last column is zero.
\<close>
theorem tracking_border_zero:
  assumes "is_2d h w a" "0 < h" "0 < w"
  shows "\<exists>out. apply_edge_tracking a = Inr out \<and> is_2d h w out \<and>
           (\<forall>y<h. \<forall>x<w. y = 0 \<or> y = h - 1 \<or> x = 0 \<or> x = w - 1 \<longrightarrow> out ! y ! x = 0)"
proof -
  obtain p where p: "np_pad_edge a = Inr p"
    using np_pad_edge_ok [OF assms] by blast
  define s where "s = strong_pass a p"
  define k where "k = weak_pass a p s"
  have out: "apply_edge_tracking a = Inr (np_add s k)"
    by (simp add: apply_edge_tracking_def p s_def k_def Let_def)
  have s2: "is_2d h w s" unfolding s_def by (rule strong_pass_2d [OF assms(1,2)])
  have k2: "is_2d h w k" unfolding k_def by (rule weak_pass_2d [OF assms(1,2)])
  have "np_add s k ! y ! x = 0"
    if "y < h" "x < w" "y = 0 \<or> y = h - 1 \<or> x = 0 \<or> x = w - 1" for y x
  proof -
    have "s ! y ! x = 0"
      unfolding s_def using that by (subst strong_pass_nth [OF assms(1,2)]) auto
    moreover have "k ! y ! x = 0"
      unfolding k_def using that by (subst weak_pass_nth [OF assms(1,2)]) auto
    ultimately show ?thesis
      using that by (simp add: np_add_nth [OF s2 k2] wrap64_0)
  qed
  then show ?thesis using out np_add_2d [OF s2 k2] by blast
qed

theorem tracking_border_zero_witness:
  "is_2d 3 3 [[200, 200, 200], [200, 200, 200], [200, 200, 200]]
   \<and> (\<exists>out. apply_edge_tracking [[200, 200, 200], [200, 200, 200], [200, 200, 200]] = Inr out
        \<and> is_2d 3 3 out
        \<and> (\<forall>y<3. \<forall>x<3. y = 0 \<or> y = 3 - 1 \<or> x = 0 \<or> x = 3 - 1 \<longrightarrow> out ! y ! x = 0))"
proof -
  have h: "is_2d 3 3 [[200, 200, 200], [200, 200, 200], [200, 200, 200]]"
    by (simp add: is_2d_def)
  show ?thesis
    by (rule conjI [OF h tracking_border_zero [OF h]]) simp_all
qed

end
